theory Spec2Isabelle
  imports Main
begin

section \<open>Data model of \<^verbatim>\<open>redisdb.go\<close>\<close>

text \<open>
  A Go \<^verbatim>\<open>error\<close> is modelled by its message (the string \<^verbatim>\<open>Error()\<close> returns); the
  nil error is \<open>None\<close>. \<^verbatim>\<open>fmt.Errorf\<close> with the verbs \<^verbatim>\<open>%s\<close> and \<^verbatim>\<open>%v\<close> concatenates
  the pieces of its format with the arguments' texts. Go strings and byte slices are both
  byte sequences, so both are \<open>string\<close>; \<^verbatim>\<open>len\<close> counts bytes and \<^verbatim>\<open>v[0:12]\<close> is
  \<open>take 12 v\<close>. A slice that may be nil is a \<open>list option\<close> (\<open>None\<close> is the nil slice,
  \<open>Some []\<close> an empty one that is not nil); a map that may be nil is an \<open>option\<close> of a
  partial function.
\<close>

type_synonym error = string

text \<open>
  A Go call either returns its results or panics; a panic carries its message.
\<close>

datatype 'a outcome = Returned 'a | Panicked string

section \<open>\<^verbatim>\<open>spliceMap\<close> (lines 132--155)\<close>

text \<open>
  The loop \<^verbatim>\<open>for i := 0; i < lenKeys; i++ { result[keys[i]] = values[i] }\<close>. Go checks every
  index: reading \<^verbatim>\<open>keys[i]\<close> or \<^verbatim>\<open>values[i]\<close> out of range panics, and the model says so.
\<close>

function spliceLoop ::
  "string list \<Rightarrow> string list \<Rightarrow> nat \<Rightarrow> nat \<Rightarrow> (string \<rightharpoonup> string) \<Rightarrow> (string \<rightharpoonup> string) outcome"
where
  "spliceLoop keys values lenKeys i result =
     (if i < lenKeys then
        (if length keys \<le> i \<or> length values \<le> i then Panicked ''index out of range''
         else spliceLoop keys values lenKeys (Suc i) (result(keys ! i \<mapsto> values ! i)))
      else Returned result)"
  by pat_completeness auto
termination
  by (relation "measure (\<lambda>(keys, values, lenKeys, i, result). lenKeys - i)") auto

declare spliceLoop.simps [simp del]

definition errSpliceNil :: error where
  "errSpliceNil =
     ''redis: cannot splice keys supplied to HMGET with values returned because one or both slices are nil''"

definition errSpliceLength :: error where
  "errSpliceLength =
     ''redis: cannot splice keys supplied to HMGET with values returned because their lengths are different''"

text \<open>
  The elements of a slice that may be nil, and Go's \<^verbatim>\<open>len\<close> on it: the nil slice has no
  elements and length 0.
\<close>

definition elems :: "'a list option \<Rightarrow> 'a list" where
  "elems xs = (case xs of None \<Rightarrow> [] | Some ys \<Rightarrow> ys)"

definition len :: "'a list option \<Rightarrow> nat" where
  "len xs = length (elems xs)"

definition spliceMap ::
  "string list option \<Rightarrow> string list option \<Rightarrow> error option
     \<Rightarrow> ((string \<rightharpoonup> string) option \<times> error option) outcome"
where
  "spliceMap keys values err =
     (if keys = None \<or> values = None then
        (if err = None then Returned (None, Some errSpliceNil)
         else Returned (None, err))
      else
        (let lenKeys = len keys; lenValues = len values in
         if lenKeys \<noteq> lenValues then
           (if err = None then Returned (None, Some errSpliceLength)
            else Returned (None, err))
         else
           (case spliceLoop (elems keys) (elems values) lenKeys 0 Map.empty of
              Panicked msg \<Rightarrow> Panicked msg
            | Returned result \<Rightarrow> Returned (Some result, err))))"

section \<open>The collaborators: connection, store and reply conversions\<close>

text \<open>
  The package \<^verbatim>\<open>github.com/gomodule/redigo/redis\<close> is not part of this repository. What
  the operations call in it is taken as a parameter: a record \<open>L\<close> with one field per
  library function the source uses. Nothing is assumed about these functions; a theorem
  that needs a fact about one of them states it as a premise.

  \<^item> \<open>connDo\<close> is \<^verbatim>\<open>conn.Do(cmd, args...)\<close>: in a state \<open>'s\<close> of the connection and the
    store behind it, a command yields the pair \<^verbatim>\<open>(reply, err)\<close> and the next state.
  \<^item> \<open>redisString\<close>, \<open>redisBytes\<close>, \<open>redisBool\<close>, \<open>redisInt\<close>, \<open>redisValues\<close>,
    \<open>redisStrings\<close> and \<open>redisStringMap\<close> are the conversions \<^verbatim>\<open>redis.String\<close>, ...: each
    takes \<^verbatim>\<open>(reply, err)\<close> and returns \<^verbatim>\<open>(value, err)\<close>, both components, as in Go.

  The type \<open>'r\<close> is the reply (\<^verbatim>\<open>interface{}\<close>). Go's \<^verbatim>\<open>int\<close> is modelled by \<open>int\<close>: the
  source does no arithmetic on it. The slice \<^verbatim>\<open>[]interface{}\<close> of \<^verbatim>\<open>redis.Values\<close> is a
  list, since the source only indexes it (the nil slice is the empty list).
\<close>

datatype arg = AInt int | AStr string | ABytes string

record ('s, 'r) redigo =
  connDo :: "'s \<Rightarrow> string \<Rightarrow> arg list \<Rightarrow> ('r \<times> error option) \<times> 's"
  redisString :: "'r \<Rightarrow> error option \<Rightarrow> string \<times> error option"
  redisBytes :: "'r \<Rightarrow> error option \<Rightarrow> string option \<times> error option"
  redisBool :: "'r \<Rightarrow> error option \<Rightarrow> bool \<times> error option"
  redisInt :: "'r \<Rightarrow> error option \<Rightarrow> int \<times> error option"
  redisValues :: "'r \<Rightarrow> error option \<Rightarrow> 'r list \<times> error option"
  redisStrings :: "'r \<Rightarrow> error option \<Rightarrow> string list option \<times> error option"
  redisStringMap :: "'r \<Rightarrow> error option \<Rightarrow> (string \<rightharpoonup> string) option \<times> error option"

text \<open>
  The world an operation runs in: the state of the connection and store, and the trace of
  what the operation did to the pool and the connection, in order. \<^verbatim>\<open>d.redisPool.Get()\<close>
  is the event \<open>PoolGet\<close>, a command is \<open>ConnDo\<close>, the deferred \<^verbatim>\<open>conn.Close()\<close> is
  \<open>ConnClose\<close>. The pool is taken to hand out a connection; what its dial function does
  on a failed dial is \<open>newPool\<close> below.
\<close>

datatype event = PoolGet | ConnDo string "arg list" | ConnClose

record 's world =
  store :: 's
  events :: "event list"

definition poolGet :: "'s world \<Rightarrow> 's world" where
  "poolGet w = w\<lparr>events := events w @ [PoolGet]\<rparr>"

definition connClose :: "'s world \<Rightarrow> 's world" where
  "connClose w = w\<lparr>events := events w @ [ConnClose]\<rparr>"

definition Do ::
  "('s, 'r) redigo \<Rightarrow> 's world \<Rightarrow> string \<Rightarrow> arg list \<Rightarrow> ('r \<times> error option) \<times> 's world"
where
  "Do L w cmd args =
     (case connDo L (store w) cmd args of
        (res, s') \<Rightarrow> (res, w\<lparr>store := s', events := events w @ [ConnDo cmd args]\<rparr>))"

section \<open>The operations (lines 41--126, 157--206)\<close>

definition Ping :: "('s, 'r) redigo \<Rightarrow> 's world \<Rightarrow> error option \<times> 's world" where
  "Ping L w =
     (let w1 = poolGet w in
      case Do L w1 ''PING'' [] of
        ((reply, derr), w2) \<Rightarrow>
          (case redisString L reply derr of
             (_, Some err) \<Rightarrow> (Some (''cannot 'PING' db: '' @ err), connClose w2)
           | (_, None) \<Rightarrow> (None, connClose w2)))"

definition Get ::
  "('s, 'r) redigo \<Rightarrow> 's world \<Rightarrow> string \<Rightarrow> (string option \<times> error option) \<times> 's world"
where
  "Get L w key =
     (let w1 = poolGet w in
      case Do L w1 ''GET'' [AStr key] of
        ((reply, derr), w2) \<Rightarrow>
          (case redisBytes L reply derr of
             (data, Some err) \<Rightarrow>
               ((data, Some (''error getting key '' @ key @ '': '' @ err)), connClose w2)
           | (data, None) \<Rightarrow> ((data, None), connClose w2)))"

text \<open>
  The preview of a value in the error messages of \<^verbatim>\<open>Set\<close> (lines 73--76) and \<^verbatim>\<open>HMSet\<close>
  (lines 191--194), the same four lines in both:
  \<^verbatim>\<open>v := string(value); if len(v) > 15 { v = v[0:12] + "..." }\<close>.
\<close>

definition valuePreview :: "string \<Rightarrow> string" where
  "valuePreview value = (let v = value in if length v > 15 then take 12 v @ ''...'' else v)"

definition Set ::
  "('s, 'r) redigo \<Rightarrow> 's world \<Rightarrow> string \<Rightarrow> string \<Rightarrow> error option \<times> 's world"
where
  "Set L w key value =
     (let w1 = poolGet w in
      case Do L w1 ''SET'' [AStr key, ABytes value] of
        ((_, Some err), w2) \<Rightarrow>
          (Some (''error setting key '' @ key @ '' to '' @ valuePreview value @ '': '' @ err),
           connClose w2)
      | ((_, None), w2) \<Rightarrow> (None, connClose w2))"

definition Exists ::
  "('s, 'r) redigo \<Rightarrow> 's world \<Rightarrow> string \<Rightarrow> (bool \<times> error option) \<times> 's world"
where
  "Exists L w key =
     (let w1 = poolGet w in
      case Do L w1 ''EXISTS'' [AStr key] of
        ((reply, derr), w2) \<Rightarrow>
          (case redisBool L reply derr of
             (ok, Some err) \<Rightarrow>
               ((ok, Some (''error checking if key '' @ key @ '' exists: '' @ err)), connClose w2)
           | (ok, None) \<Rightarrow> ((ok, None), connClose w2)))"

definition Delete :: "('s, 'r) redigo \<Rightarrow> 's world \<Rightarrow> string \<Rightarrow> error option \<times> 's world" where
  "Delete L w key =
     (let w1 = poolGet w in
      case Do L w1 ''DEL'' [AStr key] of
        ((_, err), w2) \<Rightarrow> (err, connClose w2))"

text \<open>
  \<^verbatim>\<open>GetKeys\<close> (lines 103--126). The loop \<^verbatim>\<open>for { ... }\<close> has no bound, so it is a partial
  function: \<open>None\<close> is the run that never returns. \<^verbatim>\<open>arr[0]\<close> and \<^verbatim>\<open>arr[1]\<close> are checked
  indexings and panic on a shorter slice. The second results of \<^verbatim>\<open>redis.Int\<close> and
  \<^verbatim>\<open>redis.Strings\<close> go to the blank identifier. \<^verbatim>\<open>append(keys, k...)\<close> with the nil slice
  \<open>k\<close> appends nothing; \<^verbatim>\<open>keys\<close> itself is nil exactly when it is empty, so it is a list.
\<close>

definition scanArgs :: "int \<Rightarrow> string \<Rightarrow> arg list" where
  "scanArgs iter pattern = [AInt iter, AStr ''MATCH'', AStr pattern]"

definition errRetrieving :: "string \<Rightarrow> error" where
  "errRetrieving pattern = ''error retrieving '' @ [CHR 0x27] @ pattern @ [CHR 0x27] @ '' keys''"

partial_function (option) scanLoop ::
  "('s, 'r) redigo \<Rightarrow> string \<Rightarrow> int \<Rightarrow> string list \<Rightarrow> 's world
     \<Rightarrow> ((string list \<times> error option) outcome \<times> 's world) option"
where
  "scanLoop L pattern iter keys w =
     (case Do L w ''SCAN'' (scanArgs iter pattern) of
        ((reply, derr), w1) \<Rightarrow>
          (case redisValues L reply derr of
             (arr, Some err) \<Rightarrow> Some (Returned (keys, Some (errRetrieving pattern)), w1)
           | (arr, None) \<Rightarrow>
               if length arr \<le> 0 then Some (Panicked ''index out of range [0]'', w1)
               else
                 (case redisInt L (arr ! 0) None of
                    (iter', _) \<Rightarrow>
                      if length arr \<le> 1 then Some (Panicked ''index out of range [1]'', w1)
                      else
                        (case redisStrings L (arr ! 1) None of
                           (k, _) \<Rightarrow>
                             (let keys' = keys @ elems k in
                              if iter' = 0 then Some (Returned (keys', None), w1)
                              else scanLoop L pattern iter' keys' w1)))))"

definition GetKeys ::
  "('s, 'r) redigo \<Rightarrow> 's world \<Rightarrow> string
     \<Rightarrow> ((string list \<times> error option) outcome \<times> 's world) option"
where
  "GetKeys L w pattern =
     (let w1 = poolGet w in
      case scanLoop L pattern 0 [] w1 of
        None \<Rightarrow> None
      | Some (res, w2) \<Rightarrow> Some (res, connClose w2))"

text \<open>
  \<^verbatim>\<open>HMGet\<close> (lines 157--167). The variadic parameter \<^verbatim>\<open>fields\<close> is written \<open>flds\<close>. Past
  the length check it is a non-nil slice, so \<^verbatim>\<open>spliceMap\<close> receives \<open>Some flds\<close>.
  \<^verbatim>\<open>redis.Args{key}.AddFlat(fields)\<close> is the key followed by the field names.
\<close>

definition errNoFields :: error where
  "errNoFields = ''redis: at least once field is required''"

definition HMGet ::
  "('s, 'r) redigo \<Rightarrow> 's world \<Rightarrow> string \<Rightarrow> string list
     \<Rightarrow> ((string \<rightharpoonup> string) option \<times> error option) outcome \<times> 's world"
where
  "HMGet L w key flds =
     (if length flds = 0 then (Returned (None, Some errNoFields), w)
      else
        (let w1 = poolGet w in
         case Do L w1 ''HMGET'' (AStr key # map AStr flds) of
           ((reply, derr), w2) \<Rightarrow>
             (case redisStrings L reply derr of
                (values, err) \<Rightarrow> (spliceMap (Some flds) values err, connClose w2))))"



definition HMSet ::
  "('s, 'r) redigo \<Rightarrow> 's world \<Rightarrow> string \<Rightarrow> string \<Rightarrow> string \<Rightarrow> error option \<times> 's world"
where
  "HMSet L w key hashKey value =
     (let w1 = poolGet w in
      case Do L w1 ''HMSET'' [AStr key, AStr hashKey, ABytes value] of
        ((_, Some err), w2) \<Rightarrow>
          (Some (''error setting key '' @ key @ '':'' @ hashKey @ '' to '' @ valuePreview value
                   @ '': '' @ err),
           connClose w2)
      | ((_, None), w2) \<Rightarrow> (None, connClose w2))"

definition Incr ::
  "('s, 'r) redigo \<Rightarrow> 's world \<Rightarrow> string \<Rightarrow> (int \<times> error option) \<times> 's world"
where
  "Incr L w counterKey =
     (let w1 = poolGet w in
      case Do L w1 ''INCR'' [AStr counterKey] of
        ((reply, derr), w2) \<Rightarrow> (redisInt L reply derr, connClose w2))"

section \<open>\<^verbatim>\<open>newPool\<close> (lines 212--228)\<close>

text \<open>
  The pool is a struct of two limits and the dial function. \<^verbatim>\<open>redis.DialURL\<close> is the
  library's and a parameter here: for an address it yields \<^verbatim>\<open>(c, err)\<close>. The closure
  \<^verbatim>\<open>Dial\<close> calls it, panics with \<^verbatim>\<open>err.Error()\<close> when \<^verbatim>\<open>err != nil\<close>, and returns
  \<^verbatim>\<open>(c, err)\<close> otherwise.
\<close>

record 'c pool =
  MaxIdle :: int
  MaxActive :: int
  Dial :: "unit \<Rightarrow> ('c \<times> error option) outcome"

definition newPool :: "(string \<Rightarrow> 'c \<times> error option) \<Rightarrow> string \<Rightarrow> 'c pool" where
  "newPool redisDialURL redisURL =
     \<lparr>MaxIdle = 80,
      MaxActive = 12000,
      Dial = (\<lambda>_. case redisDialURL redisURL of
                (c, Some err) \<Rightarrow> Panicked err
              | (c, None) \<Rightarrow> Returned (c, None))\<rparr>"

text \<open>A dial attempt that fails, for running \<open>Dial\<close> on a concrete input.\<close>

definition refusedDial :: "string \<Rightarrow> unit option \<times> error option" where
  "refusedDial redisURL = (None, Some ''dial tcp 127.0.0.1:6379: connect: connection refused'')"

text \<open>A dial attempt that succeeds; the connection it yields is left abstract.\<close>

definition acceptedDial :: "string \<Rightarrow> unit option \<times> error option" where
  "acceptedDial redisURL = (Some (), None)"

section \<open>A scripted store, for running the operations on concrete replies\<close>

text \<open>
  To evaluate the operations on concrete inputs the parameters need values. The replies
  are the kinds the wire protocol has; the store is a script, the list of the
  \<^verbatim>\<open>(reply, err)\<close> pairs that the next calls of \<^verbatim>\<open>conn.Do\<close> return, and a connection whose
  script is used up fails with \<open>EOF\<close>. The conversions are stand-ins that follow the
  library's documented table (an upstream error is passed through with the zero value; an
  integer, bulk string or array reply converts; a nil reply, an error reply and a reply of
  another kind give the zero value and an error). A bulk string converts to an integer
  when it consists of decimal digits. The general theorems do not depend on these
  stand-ins: they hold for every value of the parameters.
\<close>

datatype reply = RInt int | RBulk string | RStatus string | RNil | RError string | RArray "reply list"

definition errNil :: error where
  "errNil = ''redigo: nil returned''"

definition errUnexpected :: error where
  "errUnexpected = ''redigo: unexpected type''"

definition scriptDo ::
  "(reply \<times> error option) list \<Rightarrow> string \<Rightarrow> arg list
     \<Rightarrow> (reply \<times> error option) \<times> (reply \<times> error option) list"
where
  "scriptDo s cmd args = (case s of [] \<Rightarrow> ((RNil, Some ''EOF''), []) | x # xs \<Rightarrow> (x, xs))"

fun parseDigits :: "string \<Rightarrow> int \<Rightarrow> int option" where
  "parseDigits [] acc = Some acc"
| "parseDigits (c # cs) acc =
     (let n = (of_char c :: nat) in
      if 48 \<le> n \<and> n \<le> 57 then parseDigits cs (10 * acc + int (n - 48)) else None)"

definition scriptString :: "reply \<Rightarrow> error option \<Rightarrow> string \<times> error option" where
  "scriptString r err =
     (case err of
        Some e \<Rightarrow> ([], Some e)
      | None \<Rightarrow>
          (case r of
             RBulk s \<Rightarrow> (s, None)
           | RStatus s \<Rightarrow> (s, None)
           | RNil \<Rightarrow> ([], Some errNil)
           | RError e \<Rightarrow> ([], Some e)
           | _ \<Rightarrow> ([], Some errUnexpected)))"

definition scriptBytes :: "reply \<Rightarrow> error option \<Rightarrow> string option \<times> error option" where
  "scriptBytes r err =
     (case err of
        Some e \<Rightarrow> (None, Some e)
      | None \<Rightarrow>
          (case r of
             RBulk s \<Rightarrow> (Some s, None)
           | RStatus s \<Rightarrow> (Some s, None)
           | RNil \<Rightarrow> (None, Some errNil)
           | RError e \<Rightarrow> (None, Some e)
           | _ \<Rightarrow> (None, Some errUnexpected)))"

definition scriptBool :: "reply \<Rightarrow> error option \<Rightarrow> bool \<times> error option" where
  "scriptBool r err =
     (case err of
        Some e \<Rightarrow> (False, Some e)
      | None \<Rightarrow>
          (case r of
             RInt n \<Rightarrow> (n \<noteq> 0, None)
           | RNil \<Rightarrow> (False, Some errNil)
           | RError e \<Rightarrow> (False, Some e)
           | _ \<Rightarrow> (False, Some errUnexpected)))"

definition scriptInt :: "reply \<Rightarrow> error option \<Rightarrow> int \<times> error option" where
  "scriptInt r err =
     (case err of
        Some e \<Rightarrow> (0, Some e)
      | None \<Rightarrow>
          (case r of
             RInt n \<Rightarrow> (n, None)
           | RBulk s \<Rightarrow>
               (case (if s = [] then None else parseDigits s 0) of
                  Some n \<Rightarrow> (n, None)
                | None \<Rightarrow> (0, Some ''strconv.ParseInt: invalid syntax''))
           | RNil \<Rightarrow> (0, Some errNil)
           | RError e \<Rightarrow> (0, Some e)
           | _ \<Rightarrow> (0, Some errUnexpected)))"

definition scriptValues :: "reply \<Rightarrow> error option \<Rightarrow> reply list \<times> error option" where
  "scriptValues r err =
     (case err of
        Some e \<Rightarrow> ([], Some e)
      | None \<Rightarrow>
          (case r of
             RArray xs \<Rightarrow> (xs, None)
           | RNil \<Rightarrow> ([], Some errNil)
           | RError e \<Rightarrow> ([], Some e)
           | _ \<Rightarrow> ([], Some errUnexpected)))"

fun bulkStrings :: "reply list \<Rightarrow> string list option" where
  "bulkStrings [] = Some []"
| "bulkStrings (RBulk s # rs) = map_option ((#) s) (bulkStrings rs)"
| "bulkStrings (RNil # rs) = map_option ((#) []) (bulkStrings rs)"
| "bulkStrings (_ # rs) = None"

definition scriptStrings :: "reply \<Rightarrow> error option \<Rightarrow> string list option \<times> error option" where
  "scriptStrings r err =
     (case err of
        Some e \<Rightarrow> (None, Some e)
      | None \<Rightarrow>
          (case r of
             RArray xs \<Rightarrow>
               (case bulkStrings xs of
                  Some ss \<Rightarrow> (Some ss, None)
                | None \<Rightarrow> (None, Some errUnexpected))
           | RNil \<Rightarrow> (None, Some errNil)
           | RError e \<Rightarrow> (None, Some e)
           | _ \<Rightarrow> (None, Some errUnexpected)))"

fun bulkPairs :: "reply list \<Rightarrow> (string \<times> string) list option" where
  "bulkPairs [] = Some []"
| "bulkPairs (RBulk k # RBulk v # rs) = map_option ((#) (k, v)) (bulkPairs rs)"
| "bulkPairs _ = None"

definition scriptStringMap ::
  "reply \<Rightarrow> error option \<Rightarrow> (string \<rightharpoonup> string) option \<times> error option"
where
  "scriptStringMap r err =
     (case scriptValues r err of
        (_, Some e) \<Rightarrow> (None, Some e)
      | (xs, None) \<Rightarrow>
          (case bulkPairs xs of
             Some ps \<Rightarrow> (Some (map_of (rev ps)), None)
           | None \<Rightarrow> (None, Some errUnexpected)))"

definition scripted :: "((reply \<times> error option) list, reply) redigo" where
  "scripted =
     \<lparr>connDo = scriptDo,
      redisString = scriptString,
      redisBytes = scriptBytes,
      redisBool = scriptBool,
      redisInt = scriptInt,
      redisValues = scriptValues,
      redisStrings = scriptStrings,
      redisStringMap = scriptStringMap\<rparr>"

definition script :: "(reply \<times> error option) list \<Rightarrow> (reply \<times> error option) list world" where
  "script rs = \<lparr>store = rs, events = []\<rparr>"

section \<open>Runs of the scan protocol\<close>

text \<open>
  What the store does over several round-trips of the scan, as a list of pairs
  \<open>(nextCursor, batchOfKeys)\<close>, one per request. \<open>scanRounds L pattern w iter rounds\<close> is
  defined when, from the world \<open>w\<close>, the request with cursor \<open>iter\<close> and each following
  request with the cursor just received is answered by a reply of at least two elements from
  which the source reads the listed cursor and batch, every cursor being non-zero; its
  value is the world after these round-trips. \<open>scanRun\<close> is a complete enumeration: the
  same, but the last pair, and only the last, has cursor 0.
\<close>

fun scanRounds ::
  "('s, 'r) redigo \<Rightarrow> string \<Rightarrow> 's world \<Rightarrow> int \<Rightarrow> (int \<times> string list) list \<Rightarrow> 's world option"
where
  "scanRounds L pattern w iter [] = Some w"
| "scanRounds L pattern w iter ((c, ks) # rounds) =
     (case Do L w ''SCAN'' (scanArgs iter pattern) of
        ((reply, derr), w1) \<Rightarrow>
          (case redisValues L reply derr of
             (arr, Some err) \<Rightarrow> None
           | (arr, None) \<Rightarrow>
               if 2 \<le> length arr \<and> fst (redisInt L (arr ! 0) None) = c
                  \<and> elems (fst (redisStrings L (arr ! 1) None)) = ks \<and> c \<noteq> 0
               then scanRounds L pattern w1 c rounds
               else None))"

fun scanRun ::
  "('s, 'r) redigo \<Rightarrow> string \<Rightarrow> 's world \<Rightarrow> int \<Rightarrow> (int \<times> string list) list \<Rightarrow> 's world option"
where
  "scanRun L pattern w iter [] = None"
| "scanRun L pattern w iter ((c, ks) # rounds) =
     (case Do L w ''SCAN'' (scanArgs iter pattern) of
        ((reply, derr), w1) \<Rightarrow>
          (case redisValues L reply derr of
             (arr, Some err) \<Rightarrow> None
           | (arr, None) \<Rightarrow>
               if 2 \<le> length arr \<and> redisInt L (arr ! 0) None = (c, None)
                  \<and> redisStrings L (arr ! 1) None = (Some ks, None)
               then (if c = 0 then (if rounds = [] then Some w1 else None)
                     else scanRun L pattern w1 c rounds)
               else None))"

text \<open>The requests of a scan that starts with cursor \<open>iter\<close> and receives the cursors \<open>cs\<close>.\<close>

definition scanRequests :: "string \<Rightarrow> int \<Rightarrow> int list \<Rightarrow> event list" where
  "scanRequests pattern iter cs = map (\<lambda>c. ConnDo ''SCAN'' (scanArgs c pattern)) (butlast (iter # cs))"

section \<open>Properties of \<^verbatim>\<open>spliceMap\<close>\<close>

lemma spliceLoop_returns:
  "lenKeys \<le> length keys \<Longrightarrow> lenKeys \<le> length values \<Longrightarrow>
   \<exists>m. spliceLoop keys values lenKeys i result = Returned m"
proof (induction keys "values" lenKeys i result rule: spliceLoop.induct)
  case (1 keys "values" lenKeys i result)
  show ?case
  proof (cases "i < lenKeys")
    case True
    with "1.prems" have inr: "\<not> (length keys \<le> i \<or> length values \<le> i)" by simp
    from True inr have "spliceLoop keys values lenKeys i result =
        spliceLoop keys values lenKeys (Suc i) (result(keys ! i \<mapsto> values ! i))"
      by (subst spliceLoop.simps) simp
    with "1.IH" [OF True inr "1.prems"] show ?thesis by (simp add: fun_upd_def)
  next
    case False
    then show ?thesis by (subst spliceLoop.simps) simp
  qed
qed

text \<open>
  With both slices of length \<open>n\<close> the loop returns the positional pairing; a field name that
  occurs twice keeps the value of its last position (\<open>map_of\<close> reads the first pair of the
  reversed list).
\<close>

lemma spliceLoop_zip:
  "length keys = n \<Longrightarrow> length values = n \<Longrightarrow> i \<le> n \<Longrightarrow>
   spliceLoop keys values n i result =
     Returned (result ++ map_of (rev (zip (drop i keys) (drop i values))))"
proof (induction keys "values" n i result rule: spliceLoop.induct)
  case (1 keys "values" lenKeys i result)
  show ?case
  proof (cases "i < lenKeys")
    case True
    with "1.prems" have inr: "\<not> (length keys \<le> i \<or> length values \<le> i)" by simp
    from True "1.prems" have dk: "drop i keys = keys ! i # drop (Suc i) keys"
      and dv: "drop i values = values ! i # drop (Suc i) values"
      by (simp_all add: Cons_nth_drop_Suc)
    from True inr have "spliceLoop keys values lenKeys i result =
        spliceLoop keys values lenKeys (Suc i) (result(keys ! i \<mapsto> values ! i))"
      by (subst spliceLoop.simps) simp
    also from "1.IH" [OF True inr "1.prems"(1,2)] True
    have "\<dots> = Returned (result(keys ! i \<mapsto> values ! i) ++
        map_of (rev (zip (drop (Suc i) keys) (drop (Suc i) values))))"
      by (simp add: fun_upd_def)
    also have "result(keys ! i \<mapsto> values ! i) ++
        map_of (rev (zip (drop (Suc i) keys) (drop (Suc i) values))) =
      result ++ map_of (rev (zip (drop i keys) (drop i values)))"
      unfolding dk dv by (rule ext) (simp add: map_add_def split: option.splits)
    finally show ?thesis .
  next
    case False
    with "1.prems" have "i = lenKeys" by simp
    with "1.prems" False show ?thesis by (subst spliceLoop.simps) simp
  qed
qed

lemma spliceMap_shaped:
  "length ks = length vs \<Longrightarrow>
   spliceMap (Some ks) (Some vs) err = Returned (Some (map_of (rev (zip ks vs))), err)"
proof -
  assume eq: "length ks = length vs"
  have "spliceLoop ks vs (length ks) 0 Map.empty =
      Returned (Map.empty ++ map_of (rev (zip (drop 0 ks) (drop 0 vs))))"
    by (rule spliceLoop_zip) (simp_all add: eq)
  then have "spliceLoop ks vs (length ks) 0 Map.empty = Returned (map_of (rev (zip ks vs)))"
    by simp
  then show ?thesis
    using eq by (simp add: spliceMap_def len_def elems_def)
qed

lemma spliceMap_length_mismatch:
  "length ks \<noteq> length vs \<Longrightarrow>
   spliceMap (Some ks) (Some vs) err =
     Returned (None, if err = None then Some errSpliceLength else err)"
  by (simp add: spliceMap_def len_def elems_def)

lemma spliceMap_nil:
  "keys = None \<or> values = None \<Longrightarrow>
   spliceMap keys values err =
     Returned (None, if err = None then Some errSpliceNil else err)"
  by (auto simp: spliceMap_def)

text \<open>
  Claim C1. Called with the nil error, \<^verbatim>\<open>spliceMap\<close> returns a mapping and the nil error
  exactly when both slices are non-nil and of equal length; in every other case it returns
  the nil mapping with one of its two shape errors; and on no input at all (whatever the
  upstream error) does it panic.
\<close>

theorem spliceMap_totality:
  "((\<exists>m. spliceMap F V None = Returned (Some m, None)) \<longleftrightarrow>
      (len F = len V \<and> F \<noteq> None \<and> V \<noteq> None))
   \<and> ((len F = len V \<and> F \<noteq> None \<and> V \<noteq> None)
        \<or> spliceMap F V None = Returned (None, Some errSpliceNil)
        \<or> spliceMap F V None = Returned (None, Some errSpliceLength))
   \<and> (\<forall>msg. spliceMap F V err \<noteq> Panicked msg)"
proof (cases F)
  case None
  then show ?thesis by (simp add: spliceMap_nil len_def elems_def)
next
  case F: (Some ks)
  show ?thesis
  proof (cases V)
    case None
    then show ?thesis by (simp add: spliceMap_nil len_def elems_def)
  next
    case V: (Some vs)
    show ?thesis
    proof (cases "length ks = length vs")
      case True
      with F V show ?thesis by (simp add: spliceMap_shaped len_def elems_def)
    next
      case False
      with F V show ?thesis by (simp add: spliceMap_length_mismatch len_def elems_def)
    qed
  qed
qed

theorem spliceMap_totality_witness:
  "(\<exists>m. spliceMap (Some [''a'', ''b'']) (Some [''1'', ''2'']) None = Returned (Some m, None))
   \<and> (spliceMap (Some [''a'', ''b'']) (Some [''1'']) None = Returned (None, Some errSpliceNil)
        \<or> spliceMap (Some [''a'', ''b'']) (Some [''1'']) None = Returned (None, Some errSpliceLength))
   \<and> (spliceMap None (Some []) None = Returned (None, Some errSpliceNil)
        \<or> spliceMap None (Some []) None = Returned (None, Some errSpliceLength))"
proof -
  have a: "\<exists>m. spliceMap (Some [''a'', ''b'']) (Some [''1'', ''2'']) None = Returned (Some m, None)"
    using spliceMap_totality [of "Some [''a'', ''b'']" "Some [''1'', ''2'']" None]
    by (simp add: len_def elems_def)
  have b: "spliceMap (Some [''a'', ''b'']) (Some [''1'']) None = Returned (None, Some errSpliceNil)
        \<or> spliceMap (Some [''a'', ''b'']) (Some [''1'']) None = Returned (None, Some errSpliceLength)"
    using spliceMap_totality [of "Some [''a'', ''b'']" "Some [''1'']" None]
    by (simp add: len_def elems_def)
  have c: "spliceMap None (Some []) None = Returned (None, Some errSpliceNil)
        \<or> spliceMap None (Some []) None = Returned (None, Some errSpliceLength)"
    using spliceMap_totality [of None "Some []" None]
    by (simp add: len_def elems_def)
  from a b c show ?thesis by blast
qed

text \<open>
  Claim C7, as stated, fails: with a non-nil upstream error and two non-nil slices of equal
  length the function reaches its last line, \<^verbatim>\<open>return result, err\<close>, and returns the
  mapping it built next to the error.
\<close>

theorem spliceMap_upstream_error_counterexample:
  "spliceMap (Some [''a'']) (Some [''1'']) (Some ''EOF'') =
     Returned (Some (Map.empty(''a'' \<mapsto> ''1'')), Some ''EOF'')
   \<and> spliceMap (Some [''a'']) (Some [''1'']) (Some ''EOF'') \<noteq> Returned (None, Some ''EOF'')"
  by (simp add: spliceMap_shaped)

text \<open>
  Claim C7, amended. With a non-nil upstream error \<open>e\<close>, \<^verbatim>\<open>spliceMap\<close> always returns \<open>e\<close>
  itself as its error. The mapping is nil when a slice is nil or the lengths differ; when
  both slices are non-nil and of equal length the positional mapping is built and returned
  next to \<open>e\<close>.
\<close>

theorem spliceMap_upstream_error:
  "spliceMap F V (Some e) =
     (case (F, V) of
        (Some ks, Some vs) \<Rightarrow>
          if length ks = length vs then Returned (Some (map_of (rev (zip ks vs))), Some e)
          else Returned (None, Some e)
      | _ \<Rightarrow> Returned (None, Some e))"
proof (cases F)
  case None
  then show ?thesis by (simp add: spliceMap_nil)
next
  case F: (Some ks)
  show ?thesis
  proof (cases V)
    case None
    with F show ?thesis by (simp add: spliceMap_nil)
  next
    case V: (Some vs)
    with F show ?thesis
      by (cases "length ks = length vs") (simp_all add: spliceMap_shaped spliceMap_length_mismatch)
  qed
qed

theorem spliceMap_upstream_error_witness:
  "spliceMap (Some [''a'', ''b'']) (Some [''1'']) (Some ''EOF'') = Returned (None, Some ''EOF'')
   \<and> spliceMap None (Some [''1'']) (Some ''EOF'') = Returned (None, Some ''EOF'')
   \<and> spliceMap (Some [''a'', ''a'']) (Some [''1'', ''2'']) (Some ''EOF'') =
       Returned (Some (Map.empty(''a'' \<mapsto> ''2'')), Some ''EOF'')"
proof -
  have "Map.empty(''a'' \<mapsto> ''2'') = map_of (rev (zip [''a'', ''a''] [''1'', ''2'']))"
    by (rule ext) simp
  then show ?thesis
    using spliceMap_upstream_error [of "Some [''a'', ''b'']" "Some [''1'']" "''EOF''"]
      spliceMap_upstream_error [of None "Some [''1'']" "''EOF''"]
      spliceMap_upstream_error [of "Some [''a'', ''a'']" "Some [''1'', ''2'']" "''EOF''"]
    by simp
qed

section \<open>Properties of the scan loop of \<^verbatim>\<open>GetKeys\<close>\<close>

text \<open>
  One iteration on a reply of at least two elements: the integer and the strings that the
  conversions return are used whether or not they come with an error; the loop stops
  exactly when that integer is 0.
\<close>

lemma scanLoop_round:
  assumes "Do L w ''SCAN'' (scanArgs iter pattern) = ((reply, derr), w1)"
    and "redisValues L reply derr = (arr, None)"
    and "2 \<le> length arr"
  shows "scanLoop L pattern iter keys w =
    (if fst (redisInt L (arr ! 0) None) = 0
     then Some (Returned (keys @ elems (fst (redisStrings L (arr ! 1) None)), None), w1)
     else scanLoop L pattern (fst (redisInt L (arr ! 0) None))
            (keys @ elems (fst (redisStrings L (arr ! 1) None))) w1)"
proof -
  from assms(3) have ne: "arr \<noteq> []" "\<not> length arr \<le> Suc 0" by auto
  show ?thesis
    by (subst scanLoop.simps) (simp add: assms(1,2) ne Let_def split: prod.splits)
qed

lemma scanLoop_transport_error:
  assumes "Do L w ''SCAN'' (scanArgs iter pattern) = ((reply, derr), w1)"
    and "redisValues L reply derr = (arr, Some err)"
  shows "scanLoop L pattern iter keys w = Some (Returned (keys, Some (errRetrieving pattern)), w1)"
  using assms by (subst scanLoop.simps) simp

text \<open>
  A reply with fewer than two elements is not handled: the indexing \<^verbatim>\<open>arr[0]\<close> or \<^verbatim>\<open>arr[1]\<close>
  panics.
\<close>

lemma scanLoop_short_reply:
  assumes "Do L w ''SCAN'' (scanArgs iter pattern) = ((reply, derr), w1)"
    and "redisValues L reply derr = (arr, None)"
    and "length arr < 2"
  shows "\<exists>msg. scanLoop L pattern iter keys w = Some (Panicked msg, w1)"
proof (cases arr)
  case Nil
  with assms(1,2) show ?thesis by (subst scanLoop.simps) simp
next
  case (Cons a as)
  with assms(3) have "as = []" by simp
  with Cons assms(1,2) show ?thesis
    by (subst scanLoop.simps) (simp split: prod.splits)
qed

lemma scanRounds_Cons:
  assumes "scanRounds L pattern w iter ((c, ks) # rounds) = Some w'"
  obtains reply derr w1 arr where
    "Do L w ''SCAN'' (scanArgs iter pattern) = ((reply, derr), w1)"
    "redisValues L reply derr = (arr, None)" "2 \<le> length arr"
    "fst (redisInt L (arr ! 0) None) = c"
    "elems (fst (redisStrings L (arr ! 1) None)) = ks" "c \<noteq> 0"
    "scanRounds L pattern w1 c rounds = Some w'"
  using assms by (auto split: prod.splits option.splits if_splits)

lemma scanLoop_rounds:
  "scanRounds L pattern w iter rounds = Some w' \<Longrightarrow>
   scanLoop L pattern iter keys w =
     scanLoop L pattern (last (iter # map fst rounds)) (keys @ concat (map snd rounds)) w'"
proof (induction rounds arbitrary: w iter keys)
  case Nil
  then show ?case by simp
next
  case (Cons r rounds)
  obtain c ks where r: "r = (c, ks)" by (cases r)
  from Cons.prems obtain reply derr w1 arr where
    step: "Do L w ''SCAN'' (scanArgs iter pattern) = ((reply, derr), w1)"
      "redisValues L reply derr = (arr, None)" "2 \<le> length arr"
    and c: "fst (redisInt L (arr ! 0) None) = c"
    and ks: "elems (fst (redisStrings L (arr ! 1) None)) = ks"
    and nz: "c \<noteq> 0"
    and rest: "scanRounds L pattern w1 c rounds = Some w'"
    unfolding r by (rule scanRounds_Cons)
  have "scanLoop L pattern iter keys w = scanLoop L pattern c (keys @ ks) w1"
    using scanLoop_round [OF step, where keys = keys] c ks nz by simp
  also have "\<dots> = scanLoop L pattern (last (c # map fst rounds))
      ((keys @ ks) @ concat (map snd rounds)) w'"
    by (rule Cons.IH [OF rest])
  finally show ?case by (simp add: r)
qed

lemma scanRounds_events:
  "scanRounds L pattern w iter rounds = Some w' \<Longrightarrow>
   events w' = events w @ scanRequests pattern iter (map fst rounds)"
proof (induction rounds arbitrary: w iter)
  case Nil
  then show ?case by (simp add: scanRequests_def)
next
  case (Cons r rounds)
  obtain c ks where r: "r = (c, ks)" by (cases r)
  from Cons.prems obtain reply derr w1 arr where
    step: "Do L w ''SCAN'' (scanArgs iter pattern) = ((reply, derr), w1)"
    and rest: "scanRounds L pattern w1 c rounds = Some w'"
    unfolding r by (rule scanRounds_Cons)
  from step have "events w1 = events w @ [ConnDo ''SCAN'' (scanArgs iter pattern)]"
    by (auto simp: Do_def split: prod.splits)
  with Cons.IH [OF rest] show ?case by (simp add: r scanRequests_def)
qed

text \<open>A complete enumeration: the loop returns the batches in the order of arrival.\<close>

lemma scanRun_Cons:
  assumes "scanRun L pattern w iter ((c, ks) # rounds) = Some w'"
  obtains reply derr w1 arr where
    "Do L w ''SCAN'' (scanArgs iter pattern) = ((reply, derr), w1)"
    "redisValues L reply derr = (arr, None)" "2 \<le> length arr"
    "redisInt L (arr ! 0) None = (c, None)"
    "redisStrings L (arr ! 1) None = (Some ks, None)"
    "if c = 0 then rounds = [] \<and> w' = w1 else scanRun L pattern w1 c rounds = Some w'"
  using assms by (auto split: prod.splits option.splits if_splits)

lemma scanLoop_run:
  "scanRun L pattern w iter rounds = Some w' \<Longrightarrow>
   scanLoop L pattern iter keys w = Some (Returned (keys @ concat (map snd rounds), None), w')"
proof (induction rounds arbitrary: w iter keys)
  case Nil
  then show ?case by simp
next
  case (Cons r rounds)
  obtain c ks where r: "r = (c, ks)" by (cases r)
  from Cons.prems obtain reply derr w1 arr where
    step: "Do L w ''SCAN'' (scanArgs iter pattern) = ((reply, derr), w1)"
      "redisValues L reply derr = (arr, None)" "2 \<le> length arr"
    and c: "redisInt L (arr ! 0) None = (c, None)"
    and ks: "redisStrings L (arr ! 1) None = (Some ks, None)"
    and rest: "if c = 0 then rounds = [] \<and> w' = w1 else scanRun L pattern w1 c rounds = Some w'"
    unfolding r by (rule scanRun_Cons)
  show ?case
  proof (cases "c = 0")
    case True
    with rest have "rounds = []" "w' = w1" by simp_all
    with scanLoop_round [OF step, where keys = keys] c ks True show ?thesis
      by (simp add: r elems_def)
  next
    case False
    with rest have run: "scanRun L pattern w1 c rounds = Some w'" by simp
    have "scanLoop L pattern iter keys w = scanLoop L pattern c (keys @ ks) w1"
      using scanLoop_round [OF step, where keys = keys] c ks False by (simp add: elems_def)
    also have "\<dots> = Some (Returned ((keys @ ks) @ concat (map snd rounds), None), w')"
      by (rule Cons.IH [OF run])
    finally show ?thesis by (simp add: r)
  qed
qed

lemma scanRun_events:
  "scanRun L pattern w iter rounds = Some w' \<Longrightarrow>
   events w' = events w @ scanRequests pattern iter (map fst rounds)"
proof (induction rounds arbitrary: w iter)
  case Nil
  then show ?case by simp
next
  case (Cons r rounds)
  obtain c ks where r: "r = (c, ks)" by (cases r)
  from Cons.prems obtain reply derr w1 arr where
    step: "Do L w ''SCAN'' (scanArgs iter pattern) = ((reply, derr), w1)"
    and rest: "if c = 0 then rounds = [] \<and> w' = w1 else scanRun L pattern w1 c rounds = Some w'"
    unfolding r by (rule scanRun_Cons)
  from step have ev: "events w1 = events w @ [ConnDo ''SCAN'' (scanArgs iter pattern)]"
    by (auto simp: Do_def split: prod.splits)
  show ?case
  proof (cases "c = 0")
    case True
    with rest ev show ?thesis by (simp add: r scanRequests_def)
  next
    case False
    with rest have "scanRun L pattern w1 c rounds = Some w'" by simp
    from Cons.IH [OF this] ev show ?thesis by (simp add: r scanRequests_def)
  qed
qed

lemma scanRun_cursors:
  "scanRun L pattern w iter rounds = Some w' \<Longrightarrow>
   rounds \<noteq> [] \<and> fst (last rounds) = 0 \<and> 0 \<notin> fst ` set (butlast rounds)"
proof (induction rounds arbitrary: w iter)
  case Nil
  then show ?case by simp
next
  case (Cons r rounds)
  obtain c ks where r: "r = (c, ks)" by (cases r)
  from Cons.prems obtain w1 where
    rest: "if c = 0 then rounds = [] \<and> w' = w1 else scanRun L pattern w1 c rounds = Some w'"
    unfolding r by (rule scanRun_Cons)
  show ?case
  proof (cases "c = 0")
    case True
    with rest show ?thesis by (simp add: r)
  next
    case False
    with rest have "scanRun L pattern w1 c rounds = Some w'" by simp
    from Cons.IH [OF this] False show ?thesis by (auto simp: r)
  qed
qed

text \<open>
  The loop has no bound: against a store that never returns the cursor 0 it never returns.
\<close>

lemma scanLoop_never_returns:
  fixes L :: "('s, 'r) redigo"
  assumes nz: "\<And>w iter. \<exists>reply derr w1 arr.
      Do L w ''SCAN'' (scanArgs iter pattern) = ((reply, derr), w1)
      \<and> redisValues L reply derr = (arr, None) \<and> 2 \<le> length arr
      \<and> fst (redisInt L (arr ! 0) None) \<noteq> 0"
  shows "scanLoop L pattern iter keys w = None"
proof (cases "scanLoop L pattern iter keys w")
  case None
  then show ?thesis .
next
  case (Some y)
  have "L = L \<longrightarrow> pattern = pattern \<longrightarrow> False"
  proof (rule scanLoop.raw_induct
      [where P = "\<lambda>L' p i k v y. L' = L \<longrightarrow> p = pattern \<longrightarrow> False", OF _ Some])
    fix loop :: "('s, 'r) redigo \<Rightarrow> string \<Rightarrow> int \<Rightarrow> string list \<Rightarrow> 's world
        \<Rightarrow> ((string list \<times> error option) outcome \<times> 's world) option"
    fix L' p i k v y
    assume IH: "\<And>L' p i k v y. loop L' p i k v = Some y \<Longrightarrow> L' = L \<longrightarrow> p = pattern \<longrightarrow> False"
    assume body: "(case Do L' v ''SCAN'' (scanArgs i p) of
        ((reply, derr), w1) \<Rightarrow>
          (case redisValues L' reply derr of
             (arr, Some err) \<Rightarrow> Some (Returned (k, Some (errRetrieving p)), w1)
           | (arr, None) \<Rightarrow>
               if length arr \<le> 0 then Some (Panicked ''index out of range [0]'', w1)
               else
                 (case redisInt L' (arr ! 0) None of
                    (iter', _) \<Rightarrow>
                      if length arr \<le> 1 then Some (Panicked ''index out of range [1]'', w1)
                      else
                        (case redisStrings L' (arr ! 1) None of
                           (ks, _) \<Rightarrow>
                             (let keys' = k @ elems ks in
                              if iter' = 0 then Some (Returned (keys', None), w1)
                              else loop L' p iter' keys' w1))))) = Some y"
    show "L' = L \<longrightarrow> p = pattern \<longrightarrow> False"
    proof (intro impI)
      assume L': "L' = L" and p: "p = pattern"
      from nz [of v i] obtain reply derr w1 arr where
        step: "Do L v ''SCAN'' (scanArgs i pattern) = ((reply, derr), w1)"
          "redisValues L reply derr = (arr, None)" "2 \<le> length arr"
        and c: "fst (redisInt L (arr ! 0) None) \<noteq> 0"
        by blast
      from step(3) have ne: "arr \<noteq> []" "\<not> length arr \<le> Suc 0" by auto
      from body step(1,2) ne c
      have "loop L pattern (fst (redisInt L (arr ! 0) None))
          (k @ elems (fst (redisStrings L (arr ! 1) None))) w1 = Some y"
        by (simp add: L' p Let_def split: prod.splits)
      from IH [OF this] show False by simp
    qed
  qed
  then show ?thesis by simp
qed

text \<open>
  Claim C2. \<^verbatim>\<open>GetKeys\<close> starts with cursor 0, issues one scan request with the current
  cursor and the pattern per round, appends each batch in the order of arrival, takes the
  cursor of each reply as the cursor of the next request, and stops at the first reply
  whose cursor is 0, returning all collected keys and the nil error. Stated for a complete
  enumeration \<open>rounds\<close>: the result is the concatenation of the batches, the trace is one
  \<open>PoolGet\<close>, then exactly one request per round, carrying 0 and then the cursors received, then
  the one \<open>ConnClose\<close>; the last cursor received is 0 and none before it is.
\<close>

theorem GetKeys_scan_loop:
  assumes run: "scanRun L pattern (poolGet w) 0 rounds = Some w'"
  shows "GetKeys L w pattern = Some (Returned (concat (map snd rounds), None), connClose w')
    \<and> events (connClose w') =
        events w @ [PoolGet] @ scanRequests pattern 0 (map fst rounds) @ [ConnClose]
    \<and> length (scanRequests pattern 0 (map fst rounds)) = length rounds
    \<and> fst (last rounds) = 0 \<and> 0 \<notin> fst ` set (butlast rounds)"
proof -
  from scanLoop_run [OF run, of "[]"]
  have "GetKeys L w pattern = Some (Returned (concat (map snd rounds), None), connClose w')"
    by (simp add: GetKeys_def)
  moreover from scanRun_events [OF run]
  have "events (connClose w') =
      events w @ [PoolGet] @ scanRequests pattern 0 (map fst rounds) @ [ConnClose]"
    by (simp add: connClose_def poolGet_def)
  moreover have "length (scanRequests pattern 0 (map fst rounds)) = length rounds"
    by (simp add: scanRequests_def)
  moreover note scanRun_cursors [OF run]
  ultimately show ?thesis by simp
qed

text \<open>The definitions that evaluate a run against the scripted store.\<close>

lemmas script_defs = scripted_def script_def Do_def scriptDo_def scriptValues_def scriptInt_def
  scriptStrings_def poolGet_def connClose_def scanArgs_def elems_def

text \<open>The remaining stand-in conversions of the scripted store.\<close>

lemmas script_conv_defs = scriptString_def scriptBytes_def scriptBool_def scriptStringMap_def
  errNil_def errUnexpected_def

theorem GetKeys_scan_loop_witness:
  "GetKeys scripted
     (script [(RArray [RBulk ''7'', RArray [RBulk ''user:1'']], None),
              (RArray [RBulk ''0'', RArray [RBulk ''user:2'']], None)])
     ''user:*'' =
   Some (Returned ([''user:1'', ''user:2''], None),
     \<lparr>store = [],
      events = [PoolGet,
                ConnDo ''SCAN'' [AInt 0, AStr ''MATCH'', AStr ''user:*''],
                ConnDo ''SCAN'' [AInt 7, AStr ''MATCH'', AStr ''user:*''],
                ConnClose]\<rparr>)"
  using GetKeys_scan_loop [of scripted "''user:*''"
      "script [(RArray [RBulk ''7'', RArray [RBulk ''user:1'']], None),
               (RArray [RBulk ''0'', RArray [RBulk ''user:2'']], None)]"
      "[(7, [''user:1'']), (0, [''user:2''])]"
      "\<lparr>store = [],
        events = [PoolGet,
                  ConnDo ''SCAN'' [AInt 0, AStr ''MATCH'', AStr ''user:*''],
                  ConnDo ''SCAN'' [AInt 7, AStr ''MATCH'', AStr ''user:*'']]\<rparr>"]
  by (simp add: script_defs)

text \<open>
  After rounds with non-zero cursors the loop is where it would be had it started with the
  last cursor and the batches so far; whatever it then returns, \<^verbatim>\<open>GetKeys\<close> returns after
  the deferred close.
\<close>

lemma GetKeys_after_rounds:
  assumes "scanRounds L pattern (poolGet w) 0 rounds = Some w'"
    and "scanLoop L pattern (last (0 # map fst rounds)) (concat (map snd rounds)) w' = Some (res, w'')"
  shows "GetKeys L w pattern = Some (res, connClose w'')"
  using scanLoop_rounds [OF assms(1), of "[]"] assms(2) by (simp add: GetKeys_def)

text \<open>
  Claim C3, as stated, fails. The store answers the first request with cursor 7 and the key
  \<open>user:1\<close>, and the second request fails with a transport error. \<^verbatim>\<open>GetKeys\<close> returns the
  key collected so far, not an empty sequence, and its error is the message built from the
  pattern alone, not the transport error.
\<close>

theorem GetKeys_transport_error_counterexample:
  "GetKeys scripted
     (script [(RArray [RBulk ''7'', RArray [RBulk ''user:1'']], None),
              (RNil, Some ''connection reset by peer'')])
     ''user:*'' =
   Some (Returned ([''user:1''], Some (errRetrieving ''user:*'')),
     \<lparr>store = [],
      events = [PoolGet,
                ConnDo ''SCAN'' [AInt 0, AStr ''MATCH'', AStr ''user:*''],
                ConnDo ''SCAN'' [AInt 7, AStr ''MATCH'', AStr ''user:*''],
                ConnClose]\<rparr>)
   \<and> [''user:1''] \<noteq> []
   \<and> errRetrieving ''user:*'' \<noteq> ''connection reset by peer''"
proof -
  let ?w = "script [(RArray [RBulk ''7'', RArray [RBulk ''user:1'']], None),
                    (RNil, Some ''connection reset by peer'')]"
  let ?w' = "\<lparr>store = [(RNil, Some ''connection reset by peer'')],
      events = [PoolGet, ConnDo ''SCAN'' [AInt 0, AStr ''MATCH'', AStr ''user:*'']]\<rparr>"
  let ?w'' = "\<lparr>store = [] :: (reply \<times> error option) list,
      events = [PoolGet, ConnDo ''SCAN'' [AInt 0, AStr ''MATCH'', AStr ''user:*''],
                ConnDo ''SCAN'' [AInt 7, AStr ''MATCH'', AStr ''user:*'']]\<rparr>"
  have rounds: "scanRounds scripted ''user:*'' (poolGet ?w) 0 [(7, [''user:1''])] = Some ?w'"
    by (simp add: script_defs)
  have "scanLoop scripted ''user:*'' 7 [''user:1''] ?w' =
      Some (Returned ([''user:1''], Some (errRetrieving ''user:*'')), ?w'')"
    by (rule scanLoop_transport_error [where reply = RNil
          and derr = "Some ''connection reset by peer''" and arr = "[]"
          and err = "''connection reset by peer''"])
       (simp_all add: script_defs)
  with GetKeys_after_rounds [OF rounds] show ?thesis
    by (simp add: connClose_def errRetrieving_def)
qed

text \<open>
  Claim C3, amended. When a scan round-trip fails (\<^verbatim>\<open>redis.Values\<close> returns a non-nil
  error, which is where an error of \<^verbatim>\<open>conn.Do\<close> arrives), \<^verbatim>\<open>GetKeys\<close> returns the keys
  collected from the earlier batches, in batch order, together with a non-nil error whose
  message names the pattern; line 113 is \<^verbatim>\<open>return keys, fmt.Errorf(...)\<close>.
\<close>

theorem GetKeys_transport_error:
  assumes "scanRounds L pattern (poolGet w) 0 rounds = Some w'"
    and "Do L w' ''SCAN'' (scanArgs (last (0 # map fst rounds)) pattern) = ((reply, derr), w'')"
    and "redisValues L reply derr = (arr, Some err)"
  shows "GetKeys L w pattern =
    Some (Returned (concat (map snd rounds), Some (errRetrieving pattern)), connClose w'')"
  by (rule GetKeys_after_rounds [OF assms(1)]) (rule scanLoop_transport_error [OF assms(2,3)])

theorem GetKeys_transport_error_witness:
  "GetKeys scripted
     (script [(RArray [RBulk ''7'', RArray [RBulk ''user:1'']], None),
              (RArray [RBulk ''9'', RArray [RBulk ''user:2'']], None),
              (RNil, Some ''EOF'')])
     ''user:*'' =
   Some (Returned ([''user:1'', ''user:2''], Some (errRetrieving ''user:*'')),
     \<lparr>store = [],
      events = [PoolGet,
                ConnDo ''SCAN'' [AInt 0, AStr ''MATCH'', AStr ''user:*''],
                ConnDo ''SCAN'' [AInt 7, AStr ''MATCH'', AStr ''user:*''],
                ConnDo ''SCAN'' [AInt 9, AStr ''MATCH'', AStr ''user:*''],
                ConnClose]\<rparr>)"
  using GetKeys_transport_error [of scripted "''user:*''"
      "script [(RArray [RBulk ''7'', RArray [RBulk ''user:1'']], None),
               (RArray [RBulk ''9'', RArray [RBulk ''user:2'']], None),
               (RNil, Some ''EOF'')]"
      "[(7, [''user:1'']), (9, [''user:2''])]"
      "\<lparr>store = [(RNil, Some ''EOF'')],
        events = [PoolGet,
                  ConnDo ''SCAN'' [AInt 0, AStr ''MATCH'', AStr ''user:*''],
                  ConnDo ''SCAN'' [AInt 7, AStr ''MATCH'', AStr ''user:*'']]\<rparr>"
      RNil "Some ''EOF''"
      "\<lparr>store = [],
        events = [PoolGet,
                  ConnDo ''SCAN'' [AInt 0, AStr ''MATCH'', AStr ''user:*''],
                  ConnDo ''SCAN'' [AInt 7, AStr ''MATCH'', AStr ''user:*''],
                  ConnDo ''SCAN'' [AInt 9, AStr ''MATCH'', AStr ''user:*'']]\<rparr>"
      "[]" "''EOF''"]
  by (simp add: script_defs)



section \<open>Properties of the single-command operations\<close>

lemma valuePreview_length: "length (valuePreview v) \<le> 15"
  by (simp add: valuePreview_def Let_def)

text \<open>
  Claim C9. When \<^verbatim>\<open>Set\<close> or \<^verbatim>\<open>HMSet\<close> fails, the message holds, between the key context and
  the error text, the first 12 bytes of the value followed by \<open>...\<close> when the value is longer
  than 15 bytes, and the whole value otherwise; that preview is never longer than 15 bytes.
\<close>

theorem Set_HMSet_value_preview:
  "(\<forall>reply err w2. Do L (poolGet w) ''SET'' [AStr key, ABytes value] = ((reply, Some err), w2) \<longrightarrow>
      fst (Set L w key value) =
        Some (''error setting key '' @ key @ '' to ''
              @ (if length value > 15 then take 12 value @ ''...'' else value) @ '': '' @ err))
   \<and> (\<forall>reply err w2.
        Do L (poolGet w) ''HMSET'' [AStr key, AStr hashKey, ABytes value] = ((reply, Some err), w2) \<longrightarrow>
        fst (HMSet L w key hashKey value) =
          Some (''error setting key '' @ key @ '':'' @ hashKey @ '' to ''
                @ (if length value > 15 then take 12 value @ ''...'' else value) @ '': '' @ err))
   \<and> length (if length value > 15 then take 12 value @ ''...'' else value) \<le> 15"
  by (simp add: Set_def HMSet_def valuePreview_def Let_def)

theorem Set_HMSet_value_preview_witness:
  "fst (Set scripted (script [(RNil, Some ''EOF'')]) ''k'' ''0123456789abcdef'') =
     Some ''error setting key k to 0123456789ab...: EOF''
   \<and> fst (Set scripted (script [(RNil, Some ''EOF'')]) ''k'' ''0123456789abcde'') =
     Some ''error setting key k to 0123456789abcde: EOF''
   \<and> fst (HMSet scripted (script [(RNil, Some ''EOF'')]) ''k'' ''f'' ''0123456789abcdef'') =
     Some ''error setting key k:f to 0123456789ab...: EOF''"
  using Set_HMSet_value_preview [of scripted "script [(RNil, Some ''EOF'')]" "''k''"
      "''0123456789abcdef''" "''f''"]
    Set_HMSet_value_preview [of scripted "script [(RNil, Some ''EOF'')]" "''k''"
      "''0123456789abcde''" "''f''"]
  by (simp add: script_defs)

text \<open>
  Claim C5. With zero field names \<^verbatim>\<open>HMGet\<close> returns its usage error and leaves the world as
  it found it: the trace gains no \<open>PoolGet\<close> and no \<open>ConnDo\<close>, the store is not touched.
\<close>

theorem HMGet_no_fields:
  "HMGet L w key [] = (Returned (None, Some errNoFields), w)
   \<and> events (snd (HMGet L w key [])) = events w
   \<and> store (snd (HMGet L w key [])) = store w"
  by (simp add: HMGet_def)

text \<open>With a field name the same operation does borrow, issue the command and close.\<close>

lemma HMGet_round_trip:
  "flds \<noteq> [] \<Longrightarrow>
   events (snd (HMGet L w key flds)) =
     events w @ [PoolGet, ConnDo ''HMGET'' (AStr key # map AStr flds), ConnClose]"
  by (simp add: HMGet_def Do_def poolGet_def connClose_def Let_def split: prod.splits)

theorem HMGet_no_fields_witness:
  "HMGet scripted (script [(RArray [RBulk ''1''], None)]) ''h1'' [] =
     (Returned (None, Some errNoFields), script [(RArray [RBulk ''1''], None)])"
  using HMGet_no_fields [of scripted "script [(RArray [RBulk ''1''], None)]" "''h1''"]
  by simp



text \<open>
  Claim C4, as stated, fails: on a refused connection the dial function of the pool does
  not return an error, it panics with the error's message (line 223).
\<close>

theorem newPool_dial_counterexample:
  "Dial (newPool refusedDial ''redis://127.0.0.1:6379'') () =
     Panicked ''dial tcp 127.0.0.1:6379: connect: connection refused''
   \<and> Dial (newPool refusedDial ''redis://127.0.0.1:6379'') () \<noteq>
     Returned (None, Some ''dial tcp 127.0.0.1:6379: connect: connection refused'')"
  by (simp add: newPool_def refusedDial_def)

text \<open>
  Claim C4, amended. \<^verbatim>\<open>newPool\<close> itself only builds the struct (80 idle, 12000 active
  connections) and dials nothing. Its dial function panics with the error's message when the
  dial attempt fails, returns the connection with the nil error when it succeeds, and so
  never returns a non-nil error to its caller.
\<close>

theorem newPool_dial:
  "(\<forall>c err. redisDialURL redisURL = (c, Some err) \<longrightarrow>
      Dial (newPool redisDialURL redisURL) () = Panicked err)
   \<and> (\<forall>c. redisDialURL redisURL = (c, None) \<longrightarrow>
      Dial (newPool redisDialURL redisURL) () = Returned (c, None))
   \<and> (\<forall>c err. Dial (newPool redisDialURL redisURL) () \<noteq> Returned (c, Some err))
   \<and> MaxIdle (newPool redisDialURL redisURL) = 80
   \<and> MaxActive (newPool redisDialURL redisURL) = 12000"
  by (auto simp: newPool_def split: prod.splits option.splits)

theorem newPool_dial_witness:
  "Dial (newPool refusedDial ''redis://127.0.0.1:6379'') () =
     Panicked ''dial tcp 127.0.0.1:6379: connect: connection refused''
   \<and> Dial (newPool acceptedDial ''redis://127.0.0.1:6379'') () = Returned (Some (), None)"
  using newPool_dial [of refusedDial "''redis://127.0.0.1:6379''"]
    newPool_dial [of acceptedDial "''redis://127.0.0.1:6379''"]
  by (simp add: refusedDial_def acceptedDial_def)

text \<open>
  Claim C8, as stated, fails: \<^verbatim>\<open>Delete\<close> returns the error of \<^verbatim>\<open>conn.Do\<close> as it is (line
  100), and \<^verbatim>\<open>Incr\<close> returns what \<^verbatim>\<open>redis.Int\<close> returns (line 205); neither adds the
  operation or the key.
\<close>

theorem operation_errors_counterexample:
  "fst (Delete scripted (script [(RNil, Some ''EOF'')]) ''user:1'') = Some ''EOF''
   \<and> fst (Incr scripted (script [(RNil, Some ''EOF'')]) ''hits'') = (0, Some ''EOF'')"
  by (simp add: Delete_def Incr_def script_defs)

text \<open>
  Claim C8, amended. \<^verbatim>\<open>Ping\<close>, \<^verbatim>\<open>Get\<close>, \<^verbatim>\<open>Set\<close>, \<^verbatim>\<open>Exists\<close> and \<^verbatim>\<open>HMSet\<close> return the
  underlying error's text behind a prefix that names the operation and, except for \<^verbatim>\<open>Ping\<close>,
  the key (and field, and value preview). \<^verbatim>\<open>Delete\<close>, \<^verbatim>\<open>Incr\<close> and \<^verbatim>\<open>HMGet\<close> return the
  underlying error unchanged. \<^verbatim>\<open>GetKeys\<close> returns a new error that names the pattern and
  leaves the underlying error out.
\<close>

theorem operation_errors:
  "(\<forall>reply derr w2 v err. Do L (poolGet w) ''PING'' [] = ((reply, derr), w2) \<longrightarrow>
      redisString L reply derr = (v, Some err) \<longrightarrow>
      fst (Ping L w) = Some (''cannot 'PING' db: '' @ err))
   \<and> (\<forall>reply derr w2 data err. Do L (poolGet w) ''GET'' [AStr key] = ((reply, derr), w2) \<longrightarrow>
      redisBytes L reply derr = (data, Some err) \<longrightarrow>
      fst (Get L w key) = (data, Some (''error getting key '' @ key @ '': '' @ err)))
   \<and> (\<forall>reply err w2. Do L (poolGet w) ''SET'' [AStr key, ABytes value] = ((reply, Some err), w2) \<longrightarrow>
      fst (Set L w key value) =
        Some (''error setting key '' @ key @ '' to '' @ valuePreview value @ '': '' @ err))
   \<and> (\<forall>reply derr w2 ok err. Do L (poolGet w) ''EXISTS'' [AStr key] = ((reply, derr), w2) \<longrightarrow>
      redisBool L reply derr = (ok, Some err) \<longrightarrow>
      fst (Exists L w key) = (ok, Some (''error checking if key '' @ key @ '' exists: '' @ err)))
   \<and> (\<forall>reply err w2.
      Do L (poolGet w) ''HMSET'' [AStr key, AStr hashKey, ABytes value] = ((reply, Some err), w2) \<longrightarrow>
      fst (HMSet L w key hashKey value) =
        Some (''error setting key '' @ key @ '':'' @ hashKey @ '' to '' @ valuePreview value
              @ '': '' @ err))
   \<and> (\<forall>reply derr w2. Do L (poolGet w) ''DEL'' [AStr key] = ((reply, derr), w2) \<longrightarrow>
      fst (Delete L w key) = derr)
   \<and> (\<forall>reply derr w2. Do L (poolGet w) ''INCR'' [AStr key] = ((reply, derr), w2) \<longrightarrow>
      fst (Incr L w key) = redisInt L reply derr)
   \<and> (\<forall>reply derr w2 vs err. flds \<noteq> [] \<longrightarrow>
      Do L (poolGet w) ''HMGET'' (AStr key # map AStr flds) = ((reply, derr), w2) \<longrightarrow>
      redisStrings L reply derr = (vs, Some err) \<longrightarrow>
      (\<exists>m. fst (HMGet L w key flds) = Returned (m, Some err)))
   \<and> (\<forall>reply derr w2 arr err.
      Do L (poolGet w) ''SCAN'' (scanArgs 0 pattern) = ((reply, derr), w2) \<longrightarrow>
      redisValues L reply derr = (arr, Some err) \<longrightarrow>
      GetKeys L w pattern =
        Some (Returned ([], Some (''error retrieving '' @ [CHR 0x27] @ pattern @ [CHR 0x27] @ '' keys'')),
              connClose w2))"
proof (intro conjI allI impI)
  fix reply derr w2 arr err
  assume "Do L (poolGet w) ''SCAN'' (scanArgs 0 pattern) = ((reply, derr), w2)"
    and "redisValues L reply derr = (arr, Some err)"
  from scanLoop_transport_error [OF this, of "[]"]
  show "GetKeys L w pattern =
      Some (Returned ([], Some (''error retrieving '' @ [CHR 0x27] @ pattern @ [CHR 0x27] @ '' keys'')),
            connClose w2)"
    by (simp add: GetKeys_def errRetrieving_def)
next
  fix reply derr w2 vs err
  assume "flds \<noteq> []"
    and "Do L (poolGet w) ''HMGET'' (AStr key # map AStr flds) = ((reply, derr), w2)"
    and "redisStrings L reply derr = (vs, Some err)"
  then have "fst (HMGet L w key flds) = spliceMap (Some flds) vs (Some err)"
    by (simp add: HMGet_def)
  then show "\<exists>m. fst (HMGet L w key flds) = Returned (m, Some err)"
    by (cases vs; cases "length flds = length (the vs)")
       (simp_all add: spliceMap_nil spliceMap_shaped spliceMap_length_mismatch)
qed (simp_all add: Ping_def Get_def Set_def Exists_def HMSet_def Delete_def Incr_def)

theorem operation_errors_witness:
  "fst (Ping scripted (script [(RNil, Some ''EOF'')])) = Some ''cannot 'PING' db: EOF''
   \<and> fst (Get scripted (script [(RNil, Some ''EOF'')]) ''user:1'') =
       (None, Some ''error getting key user:1: EOF'')
   \<and> fst (Set scripted (script [(RNil, Some ''EOF'')]) ''user:1'' ''alice'') =
       Some ''error setting key user:1 to alice: EOF''
   \<and> fst (Exists scripted (script [(RNil, Some ''EOF'')]) ''user:1'') =
       (False, Some ''error checking if key user:1 exists: EOF'')
   \<and> fst (HMSet scripted (script [(RNil, Some ''EOF'')]) ''user:1'' ''name'' ''alice'') =
       Some ''error setting key user:1:name to alice: EOF''
   \<and> fst (Delete scripted (script [(RNil, Some ''EOF'')]) ''user:1'') = Some ''EOF''
   \<and> fst (Incr scripted (script [(RNil, Some ''EOF'')]) ''user:1'') = (0, Some ''EOF'')
   \<and> fst (HMGet scripted (script [(RNil, Some ''EOF'')]) ''user:1'' [''name'']) =
       Returned (None, Some ''EOF'')"
proof -
  have hm: "fst (HMGet scripted (script [(RNil, Some ''EOF'')]) ''user:1'' [''name'']) =
      Returned (None, Some ''EOF'')"
    by (simp add: HMGet_def script_defs spliceMap_nil)
  have ex: "fst (Exists scripted (script [(RNil, Some ''EOF'')]) ''user:1'') =
      (False, Some ''error checking if key user:1 exists: EOF'')"
    by (simp add: Exists_def script_defs script_conv_defs)
  show ?thesis
    using operation_errors [of scripted "script [(RNil, Some ''EOF'')]" "''user:1''"
        "''alice''" "''name''" "[''name'']" "''user:*''"] hm ex
    by (simp add: script_defs script_conv_defs valuePreview_def)
qed

end
